theory Spec2Isabelle
  imports Main "HOL-Library.Sublist"
begin

section \<open>Strings\<close>

text \<open>
  A JavaScript string is modelled as a \<^typ>\<open>string\<close>: the list of its characters, a
  character outside ASCII being the bytes of its UTF-8 encoding (the strings are
  well formed). \<open>trim\<close> knows every white space and line terminator of JavaScript in that
  encoding. The case mapping and the case-insensitive regular expression are modelled
  on ASCII: \<open>toLowerCase\<close> of the model leaves the characters beyond ASCII as they are.
\<close>

definition nl :: string where
  "nl = [CHR 0x0A]"

text \<open>The bullet U+2022 and the three pictographs U+1F4C1, U+1F4CA, U+1F4CB.\<close>

definition bullet :: string where
  "bullet = [CHR 0xE2, CHR 0x80, CHR 0xA2]"

definition icon_folder :: string where
  "icon_folder = [CHR 0xF0, CHR 0x9F, CHR 0x93, CHR 0x81]"

definition icon_chart :: string where
  "icon_chart = [CHR 0xF0, CHR 0x9F, CHR 0x93, CHR 0x8A]"

definition icon_clipboard :: string where
  "icon_clipboard = [CHR 0xF0, CHR 0x9F, CHR 0x93, CHR 0x8B]"

text \<open>\<open>String.prototype.toLowerCase\<close>, on the letters A to Z.\<close>

definition lower_char :: "char \<Rightarrow> char" where
  "lower_char c =
     (let n = (of_char c :: nat) in if 65 \<le> n \<and> n \<le> 90 then char_of (n + 32) else c)"

definition toLowerCase :: "string \<Rightarrow> string" where
  "toLowerCase s = map lower_char s"

text \<open>\<open>s.includes(sub)\<close>: \<open>sub\<close> occurs in \<open>s\<close> as a contiguous run of characters.\<close>

definition includes_s :: "string \<Rightarrow> string \<Rightarrow> bool" where
  "includes_s s sub = sublist sub s"

text \<open>\<open>xs.join(sep)\<close>.\<close>

fun join :: "string \<Rightarrow> string list \<Rightarrow> string" where
  "join sep [] = []"
| "join sep [x] = x"
| "join sep (x # y # ys) = x @ sep @ join sep (y # ys)"

text \<open>
  A template literal prints a number that is a natural number (a length, a row count) in
  decimal.
\<close>

definition digit_char :: "nat \<Rightarrow> char" where
  "digit_char d = ''0123456789'' ! (d mod 10)"

fun string_of_nat :: "nat \<Rightarrow> string" where
  "string_of_nat n =
     (if n < 10 then [digit_char n] else string_of_nat (n div 10) @ [digit_char (n mod 10)])"

declare string_of_nat.simps [simp del]

text \<open>
  \<open>String.prototype.trim\<close> removes the white space and the line terminators at both ends
  of the string. These are the code points U+0009 to U+000D, U+0020, U+00A0, U+1680,
  U+2000 to U+200A, U+2028, U+2029, U+202F, U+205F, U+3000 and U+FEFF, here in UTF-8.
\<close>

definition whiteSpace :: "string list" where
  "whiteSpace =
     [[CHR 0x09], [CHR 0x0A], [CHR 0x0B], [CHR 0x0C], [CHR 0x0D], [CHR 0x20],
      [CHR 0xC2, CHR 0xA0],
      [CHR 0xE1, CHR 0x9A, CHR 0x80],
      [CHR 0xE2, CHR 0x80, CHR 0x80], [CHR 0xE2, CHR 0x80, CHR 0x81],
      [CHR 0xE2, CHR 0x80, CHR 0x82], [CHR 0xE2, CHR 0x80, CHR 0x83],
      [CHR 0xE2, CHR 0x80, CHR 0x84], [CHR 0xE2, CHR 0x80, CHR 0x85],
      [CHR 0xE2, CHR 0x80, CHR 0x86], [CHR 0xE2, CHR 0x80, CHR 0x87],
      [CHR 0xE2, CHR 0x80, CHR 0x88], [CHR 0xE2, CHR 0x80, CHR 0x89],
      [CHR 0xE2, CHR 0x80, CHR 0x8A],
      [CHR 0xE2, CHR 0x80, CHR 0xA8], [CHR 0xE2, CHR 0x80, CHR 0xA9],
      [CHR 0xE2, CHR 0x80, CHR 0xAF],
      [CHR 0xE2, CHR 0x81, CHR 0x9F],
      [CHR 0xE3, CHR 0x80, CHR 0x80],
      [CHR 0xEF, CHR 0xBB, CHR 0xBF]]"

text \<open>
  While one of the sequences \<open>ws\<close> starts the string, it is removed. In a well-formed
  UTF-8 string the encoding of a code point starts, and ends, at the boundary of a
  character only, so the same function on the reversed string removes the white space at
  the end.
\<close>

function stripLeading :: "string list \<Rightarrow> string \<Rightarrow> string" where
  "stripLeading ws s =
     (case find (\<lambda>w. w \<noteq> [] \<and> prefix w s) ws of
        None \<Rightarrow> s
      | Some w \<Rightarrow> stripLeading ws (drop (length w) s))"
  by pat_completeness auto
termination
proof (relation "measure (\<lambda>(ws, s). length s)")
  show "wf (measure (\<lambda>(ws, s). length s))"
    by simp
next
  fix ws :: "string list" and s w :: string
  assume "find (\<lambda>w. w \<noteq> [] \<and> prefix w s) ws = Some w"
  then have "w \<noteq> []" and "prefix w s"
    by (auto simp: find_Some_iff)
  then have "s \<noteq> []"
    by auto
  with \<open>w \<noteq> []\<close> show "((ws, drop (length w) s), (ws, s)) \<in> measure (\<lambda>(ws, s). length s)"
    by simp
qed

declare stripLeading.simps [simp del]

definition trim :: "string \<Rightarrow> string" where
  "trim s = rev (stripLeading (map rev whiteSpace) (rev (stripLeading whiteSpace s)))"

text \<open>
  \<open>name.replace(/\.(xlsx|xls|csv)$/i, "")\<close>: the regular expression is tried at every
  position from the left; it matches at a position when the rest of the string, from there
  to its end, is one of the three extensions in any letter case. The first match is
  replaced by the empty string.
\<close>

definition isExtension :: "string \<Rightarrow> bool" where
  "isExtension s \<longleftrightarrow> toLowerCase s \<in> set [''.xlsx'', ''.xls'', ''.csv'']"

fun stripExtension :: "string \<Rightarrow> string" where
  "stripExtension [] = []"
| "stripExtension (c # cs) = (if isExtension (c # cs) then [] else c # stripExtension cs)"

section \<open>Data model\<close>

text \<open>\<open>UploadedFile\<close>; the cells are \<open>any\<close> in the source, here a type parameter.\<close>

record 'c uploadedFile =
  name :: string
  sheets :: "string list"
  selectedSheet :: string
  data :: "'c list list"
  headers :: "string list"
  rowCount :: nat

datatype role = User | Ai

record 'c tablePayload =
  headers_t :: "string list"
  rows :: "'c list list"

text \<open>\<open>ChatMessage\<close>; a \<open>Date\<close> is a number of milliseconds.\<close>

record 'c chatMessage =
  id_m :: string
  role :: role
  content :: string
  timestamp_m :: nat
  table :: "'c tablePayload option"

record 'c chatSession =
  id_s :: string
  name_s :: string
  fileName :: "string option"
  timestamp_s :: nat
  messages :: "'c chatMessage list"
  file_s :: "'c uploadedFile option"

text \<open>What \<open>generateMockResponse\<close> returns.\<close>

record 'c response =
  content_r :: string
  table_r :: "'c tablePayload option"

section \<open>The response dispatcher\<close>

text \<open>\<open>file.headers.map((h, i) => `${i + 1}. **${h}**`)\<close>\<close>

definition numberedHeaders :: "string list \<Rightarrow> string list" where
  "numberedHeaders hs =
     map (\<lambda>(i, h). concat [string_of_nat (i + 1), ''. **'', h, ''**'']) (enumerate 0 hs)"

text \<open>
  The template literal of each \<open>return\<close> of \<open>generateMockResponse\<close>, in the order of the
  source, as a function of the values it reads: the name of the file, the selected sheet,
  the row count, the headers, the length of \<open>file.data\<close>.
\<close>

definition uploadPromptContent :: string where
  "uploadPromptContent =
     ''Please upload an Excel file first so I can analyze your data. Click the upload button in the sidebar or the attachment icon below to get started!''"

definition summaryContent :: "string \<Rightarrow> string \<Rightarrow> nat \<Rightarrow> string list \<Rightarrow> string" where
  "summaryContent fname sheet rc hs =
     concat
       [''Here's a summary of your data from **'', fname, ''** (Sheet: '',
        sheet, ''):'', nl, nl, icon_chart, '' **Dataset Overview**'', nl,
        bullet, '' Total Rows: '', string_of_nat rc, nl,
        bullet, '' Total Columns: '', string_of_nat (length hs), nl,
        bullet, '' Columns: '', join '', '' hs, nl, nl,
        ''The data appears to be well-structured. You can ask me specific questions about any column or request calculations!'']"

definition columnsContent :: "string list \<Rightarrow> string" where
  "columnsContent hs =
     concat
       [''Your dataset contains **'', string_of_nat (length hs),
        '' columns**:'', nl, nl, join nl (numberedHeaders hs), nl, nl,
        ''Would you like me to analyze any specific column?'']"

definition rowCountContent :: "nat \<Rightarrow> string list \<Rightarrow> string \<Rightarrow> string" where
  "rowCountContent rc hs sheet =
     concat
       [''Your dataset contains **'', string_of_nat rc,
        '' rows** of data across **'', string_of_nat (length hs),
        '' columns** in the \"'', sheet, ''\" sheet.'']"

definition previewContent :: "nat \<Rightarrow> string" where
  "previewContent dataLength =
     concat
       [''Here's a preview of the first '', string_of_nat (min 5 dataLength),
        '' rows from your data:'']"

definition lastContent :: "nat \<Rightarrow> string" where
  "lastContent dataLength =
     concat
       [''Here are the last '', string_of_nat (min 5 dataLength),
        '' rows from your data:'']"

definition defaultContent :: "string \<Rightarrow> string \<Rightarrow> nat \<Rightarrow> string list \<Rightarrow> string" where
  "defaultContent sheet fname rc hs =
     concat
       [''Great question about your data! Based on the \"'', sheet,
        ''\" sheet in **'', fname, ''**, here's what I found:'', nl, nl,
        icon_clipboard, '' Your dataset has **'', string_of_nat rc,
        '' records** with columns: '', join '', '' (take 5 hs),
        (if length hs > 5
         then concat ['' and '', string_of_nat (length hs - 5), '' more'']
         else []),
        ''.'', nl, nl, ''Try asking me to:'', nl,
        bullet, '' \"Show me a summary\"'', nl,
        bullet, '' \"Preview the first rows\"'', nl,
        bullet, '' \"What columns are available?\"'', nl,
        bullet, '' \"How many rows are there?\"'']"

text \<open>The value of each \<open>return\<close> of \<open>generateMockResponse\<close>, in the order of the source.\<close>

definition uploadPrompt :: "'c response" where
  "uploadPrompt = \<lparr> content_r = uploadPromptContent, table_r = None \<rparr>"

definition summaryResponse :: "'c uploadedFile \<Rightarrow> 'c response" where
  "summaryResponse f =
     \<lparr> content_r = summaryContent (name f) (selectedSheet f) (rowCount f) (headers f),
       table_r = None \<rparr>"

definition columnsResponse :: "'c uploadedFile \<Rightarrow> 'c response" where
  "columnsResponse f = \<lparr> content_r = columnsContent (headers f), table_r = None \<rparr>"

definition rowCountResponse :: "'c uploadedFile \<Rightarrow> 'c response" where
  "rowCountResponse f =
     \<lparr> content_r = rowCountContent (rowCount f) (headers f) (selectedSheet f),
       table_r = None \<rparr>"

text \<open>\<open>file.data.slice(0, 5)\<close> is \<open>take 5\<close>.\<close>

definition previewResponse :: "'c uploadedFile \<Rightarrow> 'c response" where
  "previewResponse f =
     (let previewRows = take 5 (data f) in
      \<lparr> content_r = previewContent (length (data f)),
        table_r = Some \<lparr> headers_t = headers f, rows = previewRows \<rparr> \<rparr>)"

text \<open>
  \<open>file.data.slice(-5)\<close> starts at \<open>max (length - 5) 0\<close>, which is the truncating
  subtraction of \<^typ>\<open>nat\<close>.
\<close>

definition lastResponse :: "'c uploadedFile \<Rightarrow> 'c response" where
  "lastResponse f =
     (let lastRows = drop (length (data f) - 5) (data f) in
      \<lparr> content_r = lastContent (length (data f)),
        table_r = Some \<lparr> headers_t = headers f, rows = lastRows \<rparr> \<rparr>)"

definition defaultResponse :: "'c uploadedFile \<Rightarrow> 'c response" where
  "defaultResponse f =
     \<lparr> content_r = defaultContent (selectedSheet f) (name f) (rowCount f) (headers f),
       table_r = None \<rparr>"

definition generateMockResponse :: "string \<Rightarrow> 'c uploadedFile option \<Rightarrow> 'c response" where
  "generateMockResponse question file_opt =
    (case file_opt of
       None \<Rightarrow> uploadPrompt
     | Some f \<Rightarrow>
        (let q = toLowerCase question in
         if includes_s q ''summary'' \<or> includes_s q ''overview'' \<or> includes_s q ''describe''
           then summaryResponse f
         else if includes_s q ''column'' \<or> includes_s q ''header'' \<or> includes_s q ''field''
           then columnsResponse f
         else if includes_s q ''row'' \<or> includes_s q ''count'' \<or> includes_s q ''how many''
           then rowCountResponse f
         else if includes_s q ''show'' \<or> includes_s q ''preview'' \<or> includes_s q ''sample''
                 \<or> includes_s q ''first''
           then previewResponse f
         else if includes_s q ''last''
           then lastResponse f
         else defaultResponse f))"

subsection \<open>The classification policy as the specification words it\<close>

text \<open>
  The specification describes the dispatcher as a table of keyword sets, tried in a fixed
  order on the lower-cased question, the first set with a keyword in the question
  deciding the answer. The table is written here from those words, to be compared with
  \<^const>\<open>generateMockResponse\<close>.
\<close>

datatype category = Summary | Columns | RowCount | Preview | Last | Default

fun spec_keywords :: "category \<Rightarrow> string list" where
  "spec_keywords Summary = [''summary'', ''overview'', ''describe'']"
| "spec_keywords Columns = [''column'', ''header'', ''field'']"
| "spec_keywords RowCount = [''row'', ''count'', ''how many'']"
| "spec_keywords Preview = [''show'', ''preview'', ''sample'', ''first'']"
| "spec_keywords Last = [''last'']"
| "spec_keywords Default = []"

definition spec_precedence :: "category list" where
  "spec_precedence = [Summary, Columns, RowCount, Preview, Last]"

definition spec_matches :: "string \<Rightarrow> category \<Rightarrow> bool" where
  "spec_matches q c = list_ex (includes_s q) (spec_keywords c)"

definition spec_classify :: "string \<Rightarrow> category" where
  "spec_classify question =
     (case find (spec_matches (toLowerCase question)) spec_precedence of
        Some c \<Rightarrow> c
      | None \<Rightarrow> Default)"

fun spec_answer :: "category \<Rightarrow> 'c uploadedFile \<Rightarrow> 'c response" where
  "spec_answer Summary f = summaryResponse f"
| "spec_answer Columns f = columnsResponse f"
| "spec_answer RowCount f = rowCountResponse f"
| "spec_answer Preview f = previewResponse f"
| "spec_answer Last f = lastResponse f"
| "spec_answer Default f = defaultResponse f"

definition spec_respond :: "string \<Rightarrow> 'c uploadedFile option \<Rightarrow> 'c response" where
  "spec_respond question file_opt =
     (case file_opt of
        None \<Rightarrow> uploadPrompt
      | Some f \<Rightarrow> spec_answer (spec_classify question) f)"

section \<open>The response dispatcher on a heap\<close>

text \<open>
  \<open>generateMockResponse\<close> once more, now with the objects it is given and the arrays it
  makes on a heap, to say what a call changes. An address is an index of the heap, and a
  new object goes at its end. The objects are those an \<open>UploadedFile\<close> is made of: the
  file object, with its strings and its number in it and the addresses of its arrays
  \<open>sheets\<close>, \<open>data\<close> and \<open>headers\<close>; an array of strings; the array \<open>data\<close>, whose elements
  are the addresses of the rows; a row. Strings and numbers are values, and a JavaScript
  string cannot be changed. The fields of \<open>HFile\<close> are in the order of the interface:
  \<open>name\<close>, \<open>sheets\<close>, \<open>selectedSheet\<close>, \<open>data\<close>, \<open>headers\<close>, \<open>rowCount\<close>.
\<close>

type_synonym addr = nat

datatype 'c hobj =
    HFile string addr string addr addr nat
  | HStrings "string list"
  | HRows "addr list"
  | HCells "'c list"

type_synonym 'c heap = "'c hobj list"

definition lookup :: "'c heap \<Rightarrow> addr \<Rightarrow> 'c hobj option" where
  "lookup h a = (if a < length h then Some (h ! a) else None)"

definition getStrings :: "'c heap \<Rightarrow> addr \<Rightarrow> string list option" where
  "getStrings h a = (case lookup h a of Some (HStrings xs) \<Rightarrow> Some xs | _ \<Rightarrow> None)"

definition getRows :: "'c heap \<Rightarrow> addr \<Rightarrow> addr list option" where
  "getRows h a = (case lookup h a of Some (HRows rs) \<Rightarrow> Some rs | _ \<Rightarrow> None)"

definition getCells :: "'c heap \<Rightarrow> addr \<Rightarrow> 'c list option" where
  "getCells h a = (case lookup h a of Some (HCells cs) \<Rightarrow> Some cs | _ \<Rightarrow> None)"

text \<open>
  The function gets the address of the file object, or \<open>null\<close>, and returns what it
  returns and the heap after the call; \<open>None\<close> is the \<open>TypeError\<close> of a heap on which an
  address does not lead to an object of the kind read. Each branch reads what the source
  reads: \<open>file.headers\<close> is read where the headers are printed, \<open>file.data\<close> where it is
  sliced. \<open>map\<close> and \<open>slice\<close> make a new array. The object returned and its \<open>table\<close> are
  new objects, given here as the content and, for the table, the address of its headers,
  which is \<open>file.headers\<close> itself, and the address of its rows, which is the new array.
\<close>

definition generateMockResponse_h ::
  "string \<Rightarrow> addr option \<Rightarrow> 'c heap \<Rightarrow> ((string \<times> (addr \<times> addr) option) \<times> 'c heap) option" where
  "generateMockResponse_h question file_ref h =
    (case file_ref of
       None \<Rightarrow> Some ((uploadPromptContent, None), h)
     | Some a \<Rightarrow>
        (case lookup h a of
           Some (HFile fname sheets_ref sheet data_ref headers_ref rc) \<Rightarrow>
             (let q = toLowerCase question in
              if includes_s q ''summary'' \<or> includes_s q ''overview'' \<or> includes_s q ''describe''
                then map_option (\<lambda>hs. ((summaryContent fname sheet rc hs, None), h))
                       (getStrings h headers_ref)
              else if includes_s q ''column'' \<or> includes_s q ''header'' \<or> includes_s q ''field''
                then map_option
                       (\<lambda>hs. ((columnsContent hs, None), h @ [HStrings (numberedHeaders hs)]))
                       (getStrings h headers_ref)
              else if includes_s q ''row'' \<or> includes_s q ''count'' \<or> includes_s q ''how many''
                then map_option (\<lambda>hs. ((rowCountContent rc hs sheet, None), h))
                       (getStrings h headers_ref)
              else if includes_s q ''show'' \<or> includes_s q ''preview'' \<or> includes_s q ''sample''
                      \<or> includes_s q ''first''
                then map_option
                       (\<lambda>rs. ((previewContent (length rs), Some (headers_ref, length h)),
                              h @ [HRows (take 5 rs)]))
                       (getRows h data_ref)
              else if includes_s q ''last''
                then map_option
                       (\<lambda>rs. ((lastContent (length rs), Some (headers_ref, length h)),
                              h @ [HRows (drop (length rs - 5) rs)]))
                       (getRows h data_ref)
              else map_option
                     (\<lambda>hs. ((defaultContent sheet fname rc hs, None), h @ [HStrings (take 5 hs)]))
                     (getStrings h headers_ref))
         | _ \<Rightarrow> None))"

text \<open>What an address leads to, read to the end: a table, a file, a response.\<close>

fun derefRows :: "'c heap \<Rightarrow> addr list \<Rightarrow> 'c list list option" where
  "derefRows h [] = Some []"
| "derefRows h (a # as) =
     (case getCells h a of
        None \<Rightarrow> None
      | Some cs \<Rightarrow> map_option ((#) cs) (derefRows h as))"

definition readTable :: "'c heap \<Rightarrow> addr \<Rightarrow> 'c list list option" where
  "readTable h a = (case getRows h a of None \<Rightarrow> None | Some rs \<Rightarrow> derefRows h rs)"

definition readFile :: "'c heap \<Rightarrow> addr \<Rightarrow> 'c uploadedFile option" where
  "readFile h a =
     (case lookup h a of
        Some (HFile fname sheets_ref sheet data_ref headers_ref rc) \<Rightarrow>
          (case (getStrings h sheets_ref, readTable h data_ref, getStrings h headers_ref) of
             (Some ss, Some rws, Some hs) \<Rightarrow>
               Some \<lparr> name = fname, sheets = ss, selectedSheet = sheet, data = rws,
                      headers = hs, rowCount = rc \<rparr>
           | _ \<Rightarrow> None)
      | _ \<Rightarrow> None)"

definition readResponse ::
  "'c heap \<Rightarrow> string \<times> (addr \<times> addr) option \<Rightarrow> 'c response option" where
  "readResponse h r =
     (case r of
        (c, None) \<Rightarrow> Some \<lparr> content_r = c, table_r = None \<rparr>
      | (c, Some (headers_ref, rows_ref)) \<Rightarrow>
          (case (getStrings h headers_ref, readTable h rows_ref) of
             (Some hs, Some rws) \<Rightarrow>
               Some \<lparr> content_r = c, table_r = Some \<lparr> headers_t = hs, rows = rws \<rparr> \<rparr>
           | _ \<Rightarrow> None))"


section \<open>The session store\<close>

text \<open>
  The state of the hook \<open>useChatEngine\<close>: its three \<open>useState\<close> cells, and the timers that
  \<open>sendMessage\<close> has set and that have not fired yet. A timer holds what its callback
  closes over: the \<open>activeSessionId\<close> of the render in which \<open>sendMessage\<close> was called, and
  the content sent. The delay itself (1200 to 2000 ms) is not modelled: a pending timer may
  fire at any later step.

  \<open>generateId()\<close> draws from \<open>Math.random\<close> and \<open>new Date()\<close> reads the clock: the
  operations take the identifier drawn and the time read as arguments.

  An operation is called from the render of the state it is applied to, so the
  \<open>activeSessionId\<close> that \<open>deleteSession\<close>, \<open>setFile\<close> and \<open>sendMessage\<close> close over is
  that of the state; a state update and the updates it makes inside its updater take
  effect as one step.
\<close>

record 'c engine =
  sessions :: "'c chatSession list"
  activeSessionId :: string
  isTyping :: bool
  pending :: "(string \<times> string) list"

definition init :: "nat \<Rightarrow> 'c engine" where
  "init now =
     \<lparr> sessions = [\<lparr> id_s = ''default'', name_s = ''Welcome Chat'', fileName = None,
                      timestamp_s = now, messages = [], file_s = None \<rparr>],
       activeSessionId = ''default'', isTyping = False, pending = [] \<rparr>"

text \<open>\<open>sessions.find((s) => s.id === activeSessionId) || sessions[0]\<close>\<close>

definition activeSession :: "'c engine \<Rightarrow> 'c chatSession option" where
  "activeSession st =
     (case find (\<lambda>s. id_s s = activeSessionId st) (sessions st) of
        Some s \<Rightarrow> Some s
      | None \<Rightarrow> (case sessions st of [] \<Rightarrow> None | s # _ \<Rightarrow> Some s))"

definition updateSession ::
  "string \<Rightarrow> ('c chatSession \<Rightarrow> 'c chatSession) \<Rightarrow> 'c engine \<Rightarrow> 'c engine" where
  "updateSession i updater st =
     st\<lparr> sessions := map (\<lambda>s. if id_s s = i then updater s else s) (sessions st) \<rparr>"

definition createNewChat :: "string \<Rightarrow> nat \<Rightarrow> 'c engine \<Rightarrow> 'c engine" where
  "createNewChat newId now st =
     (let newSession = \<lparr> id_s = newId, name_s = ''New Chat'', fileName = None,
                          timestamp_s = now, messages = [], file_s = None \<rparr>
      in st\<lparr> sessions := newSession # sessions st, activeSessionId := newId \<rparr>)"

definition setActiveSessionId :: "string \<Rightarrow> 'c engine \<Rightarrow> 'c engine" where
  "setActiveSessionId i st = st\<lparr> activeSessionId := i \<rparr>"

text \<open>\<open>newId\<close> is drawn in the branch of the empty collection only.\<close>

definition deleteSession :: "string \<Rightarrow> string \<Rightarrow> nat \<Rightarrow> 'c engine \<Rightarrow> 'c engine" where
  "deleteSession i newId now st =
     (let filtered = filter (\<lambda>s. id_s s \<noteq> i) (sessions st) in
      case filtered of
        [] \<Rightarrow>
          (let fallback = \<lparr> id_s = newId, name_s = ''New Chat'', fileName = None,
                             timestamp_s = now, messages = [], file_s = None \<rparr>
           in st\<lparr> sessions := [fallback], activeSessionId := id_s fallback \<rparr>)
      | s0 # _ \<Rightarrow>
          (if activeSessionId st = i
           then st\<lparr> sessions := filtered, activeSessionId := id_s s0 \<rparr>
           else st\<lparr> sessions := filtered \<rparr>))"

text \<open>The constants \<open>sysMsg\<close>, \<open>userMsg\<close> and \<open>aiMsg\<close> of the source.\<close>

definition sysMsg :: "'c uploadedFile \<Rightarrow> string \<Rightarrow> nat \<Rightarrow> 'c chatMessage" where
  "sysMsg f newId now =
     \<lparr> id_m = newId, role = Ai,
       content = concat
         [icon_folder, '' **'', name f, ''** loaded successfully!'', nl, nl,
          bullet, '' Sheet: **'', selectedSheet f, ''**'', nl,
          bullet, '' Rows: **'', string_of_nat (rowCount f), ''**'', nl,
          bullet, '' Columns: **'', string_of_nat (length (headers f)), ''** ('',
          join '', '' (take 4 (headers f)),
          (if length (headers f) > 4 then ''...'' else []),
          '')'', nl, nl,
          ''I'm ready to analyze your data. What would you like to know?''],
       timestamp_m = now, table = None \<rparr>"

definition userMsg :: "string \<Rightarrow> string \<Rightarrow> nat \<Rightarrow> 'c chatMessage" where
  "userMsg text newId now =
     \<lparr> id_m = newId, role = User, content = text, timestamp_m = now, table = None \<rparr>"

definition aiMsg :: "'c response \<Rightarrow> string \<Rightarrow> nat \<Rightarrow> 'c chatMessage" where
  "aiMsg response newId now =
     \<lparr> id_m = newId, role = Ai, content = content_r response, timestamp_m = now,
       table = table_r response \<rparr>"

definition setFile :: "'c uploadedFile \<Rightarrow> string \<Rightarrow> nat \<Rightarrow> 'c engine \<Rightarrow> 'c engine" where
  "setFile f newId now st =
     updateSession (activeSessionId st)
       (\<lambda>s. s\<lparr> messages := messages s @ [sysMsg f newId now], file_s := Some f,
                fileName := Some (name f), name_s := stripExtension (name f) \<rparr>) st"

definition sendMessage :: "string \<Rightarrow> string \<Rightarrow> nat \<Rightarrow> 'c engine \<Rightarrow> 'c engine" where
  "sendMessage text newId now st =
     (let st1 = updateSession (activeSessionId st)
                  (\<lambda>s. s\<lparr> messages := messages s @ [userMsg text newId now] \<rparr>) st
      in st1\<lparr> isTyping := True, pending := pending st1 @ [(activeSessionId st, text)] \<rparr>)"

text \<open>
  The callback of the timer: \<open>target\<close> and \<open>text\<close> are the \<open>activeSessionId\<close> and the
  \<open>content\<close> of its closure, \<open>st\<close> is the state when it runs. \<open>session?.file || null\<close> is
  the file of the session found, and no file when none is found.
\<close>

definition timerCallback ::
  "string \<Rightarrow> string \<Rightarrow> string \<Rightarrow> nat \<Rightarrow> 'c engine \<Rightarrow> 'c engine" where
  "timerCallback target text newId now st =
     (let session = find (\<lambda>s. id_s s = target) (sessions st);
          response = generateMockResponse text
                       (case session of None \<Rightarrow> None | Some s \<Rightarrow> file_s s)
      in st\<lparr> sessions :=
               map (\<lambda>s. if id_s s = target
                         then s\<lparr> messages := messages s @ [aiMsg response newId now] \<rparr>
                         else s)
                 (sessions st),
             isTyping := False \<rparr>)"

text \<open>The \<open>k\<close>-th pending timer fires.\<close>

definition fire :: "nat \<Rightarrow> string \<Rightarrow> nat \<Rightarrow> 'c engine \<Rightarrow> 'c engine" where
  "fire k newId now st =
     (if k < length (pending st)
      then (case pending st ! k of
              (target, text) \<Rightarrow>
                timerCallback target text newId now
                  (st\<lparr> pending := take k (pending st) @ drop (Suc k) (pending st) \<rparr>))
      else st)"

text \<open>
  \<open>handleSend\<close> of the chat area, on its input box and the store: it returns before
  calling \<open>onSendMessage\<close> when the trimmed input is empty.
\<close>

definition handleSend ::
  "string \<Rightarrow> nat \<Rightarrow> string \<times> 'c engine \<Rightarrow> string \<times> 'c engine" where
  "handleSend newId now ui =
     (case ui of (input, st) \<Rightarrow>
        (let trimmed = trim input in
         if trimmed = [] then (input, st)
         else ([], sendMessage trimmed newId now st)))"

text \<open>The operations the hook returns, and the firing of a timer, as one step function.\<close>

datatype 'c action =
    CreateNewChat string nat
  | SetActiveSessionId string
  | DeleteSession string string nat
  | SetFile "'c uploadedFile" string nat
  | SendMessage string string nat
  | Fire nat string nat

fun step :: "'c action \<Rightarrow> 'c engine \<Rightarrow> 'c engine" where
  "step (CreateNewChat newId now) st = createNewChat newId now st"
| "step (SetActiveSessionId i) st = setActiveSessionId i st"
| "step (DeleteSession i newId now) st = deleteSession i newId now st"
| "step (SetFile f newId now) st = setFile f newId now st"
| "step (SendMessage text newId now) st = sendMessage text newId now st"
| "step (Fire k newId now) st = fire k newId now st"

definition sessionIds :: "'c engine \<Rightarrow> string list" where
  "sessionIds st = map id_s (sessions st)"

text \<open>
  What the callers are expected to respect: an identifier drawn for a new session is not
  in use, and a session selected is one of the collection.
\<close>

fun expected :: "'c action \<Rightarrow> 'c engine \<Rightarrow> bool" where
  "expected (CreateNewChat newId now) st \<longleftrightarrow> newId \<notin> set (sessionIds st)"
| "expected (SetActiveSessionId i) st \<longleftrightarrow> i \<in> set (sessionIds st)"
| "expected _ st \<longleftrightarrow> True"

text \<open>The sessions that carry the active identifier.\<close>

definition activeSessions :: "'c engine \<Rightarrow> 'c chatSession list" where
  "activeSessions st = filter (\<lambda>s. id_s s = activeSessionId st) (sessions st)"

definition wellFormed :: "'c engine \<Rightarrow> bool" where
  "wellFormed st \<longleftrightarrow>
     sessions st \<noteq> [] \<and> distinct (sessionIds st) \<and> activeSessionId st \<in> set (sessionIds st)"

text \<open>A sequence of operations, and whether each is as expected where it is applied.\<close>

fun run :: "'c action list \<Rightarrow> 'c engine \<Rightarrow> 'c engine" where
  "run [] st = st"
| "run (a # as) st = run as (step a st)"

fun expectedAll :: "'c action list \<Rightarrow> 'c engine \<Rightarrow> bool" where
  "expectedAll [] st \<longleftrightarrow> True"
| "expectedAll (a # as) st \<longleftrightarrow> expected a st \<and> expectedAll as (step a st)"

text \<open>
  The dataset of the file-binding example of the specification, and the state of its
  interleaving example: session \<open>A\<close> is created, a message is sent on it, a file is bound
  to it, and session \<open>B\<close> is created and becomes active while the response is pending.
\<close>

definition q3_report :: "nat uploadedFile" where
  "q3_report =
     \<lparr> name = ''Q3-Report.XLSX'', sheets = [''Sales'', ''Costs''], selectedSheet = ''Sales'',
       data = [[1, 10], [2, 20], [3, 30]],
       headers = [''region'', ''units'', ''price'', ''cost'', ''margin''], rowCount = 3 \<rparr>"

definition interleaved :: "nat engine" where
  "interleaved =
     createNewChat ''B'' 4
       (setFile q3_report ''m2'' 3
         (sendMessage ''summary'' ''m1'' 2
           (createNewChat ''A'' 1 (init 0))))"

text \<open>The dataset of the example on a heap, in two layouts.\<close>

definition q3_heap :: "nat heap" where
  "q3_heap =
     [HStrings [''Sales'', ''Costs''], HCells [1, 10], HCells [2, 20], HCells [3, 30],
      HRows [1, 2, 3], HStrings [''region'', ''units'', ''price'', ''cost'', ''margin''],
      HFile ''Q3-Report.XLSX'' 0 ''Sales'' 4 5 3]"

definition q3_heap_other :: "nat heap" where
  "q3_heap_other =
     [HStrings [''region'', ''units'', ''price'', ''cost'', ''margin''],
      HFile ''Q3-Report.XLSX'' 2 ''Sales'' 6 0 3, HStrings [''Sales'', ''Costs''],
      HCells [1, 10], HCells [2, 20], HCells [3, 30], HRows [3, 4, 5]]"

section \<open>Auxiliary facts\<close>

lemma map_no_target:
  "t \<notin> id_s ` set xs \<Longrightarrow> map (\<lambda>s. if id_s s = t then g s else s) xs = xs"
  by (induction xs) auto

lemma filter_absent:
  "i \<notin> id_s ` set xs \<Longrightarrow> filter (\<lambda>s. id_s s \<noteq> i) xs = xs"
  by (induction xs) auto

lemma pending_sendMessage:
  "pending (sendMessage text newId now st) = pending st @ [(activeSessionId st, text)]"
  by (simp add: sendMessage_def updateSession_def Let_def)

lemma sessionIds_updateSession:
  "(\<And>s. id_s (g s) = id_s s) \<Longrightarrow> sessionIds (updateSession i g st) = sessionIds st"
  by (simp add: sessionIds_def updateSession_def)

lemma sessionIds_setFile [simp]: "sessionIds (setFile f newId now st) = sessionIds st"
  by (simp add: setFile_def Let_def sessionIds_updateSession)

lemma sessionIds_sendMessage [simp]: "sessionIds (sendMessage text newId now st) = sessionIds st"
  by (simp add: sendMessage_def Let_def sessionIds_def updateSession_def)

lemma sessionIds_timerCallback [simp]:
  "sessionIds (timerCallback target text newId now st) = sessionIds st"
  by (simp add: timerCallback_def Let_def sessionIds_def)

lemma sessionIds_fire [simp]: "sessionIds (fire k newId now st) = sessionIds st"
  by (auto simp: fire_def split: prod.splits) (simp add: sessionIds_def)

lemma activeSessionId_setFile [simp]:
  "activeSessionId (setFile f newId now st) = activeSessionId st"
  by (simp add: setFile_def Let_def updateSession_def)

lemma activeSessionId_sendMessage [simp]:
  "activeSessionId (sendMessage text newId now st) = activeSessionId st"
  by (simp add: sendMessage_def Let_def updateSession_def)

lemma activeSessionId_fire [simp]:
  "activeSessionId (fire k newId now st) = activeSessionId st"
  by (auto simp: fire_def timerCallback_def Let_def split: prod.splits)

lemma wellFormed_ids:
  "wellFormed st \<longleftrightarrow>
     sessionIds st \<noteq> [] \<and> distinct (sessionIds st) \<and> activeSessionId st \<in> set (sessionIds st)"
  by (simp add: wellFormed_def sessionIds_def)

lemma wellFormed_deleteSession:
  assumes "wellFormed st"
  shows "wellFormed (deleteSession i newId now st)"
proof (cases "filter (\<lambda>s. id_s s \<noteq> i) (sessions st)")
  case Nil
  then show ?thesis
    by (simp add: deleteSession_def Let_def wellFormed_def sessionIds_def)
next
  case (Cons s0 rest)
  have d: "distinct (map id_s (filter (\<lambda>s. id_s s \<noteq> i) (sessions st)))"
    using assms by (simp add: wellFormed_def sessionIds_def distinct_map_filter)
  have m: "activeSessionId st \<noteq> i \<Longrightarrow>
      activeSessionId st \<in> id_s ` set (filter (\<lambda>s. id_s s \<noteq> i) (sessions st))"
    using assms by (auto simp: wellFormed_def sessionIds_def)
  show ?thesis
    using d m Cons by (simp add: deleteSession_def Let_def wellFormed_def sessionIds_def)
qed

lemma wellFormed_step:
  "wellFormed st \<Longrightarrow> expected a st \<Longrightarrow> wellFormed (step a st)"
proof (cases a)
  case (DeleteSession i newId now)
  assume "wellFormed st"
  then show ?thesis using DeleteSession by (simp add: wellFormed_deleteSession)
qed (auto simp: wellFormed_ids, auto simp: sessionIds_def createNewChat_def setActiveSessionId_def Let_def)

lemma wellFormed_run:
  "wellFormed st \<Longrightarrow> expectedAll as st \<Longrightarrow> wellFormed (run as st)"
  by (induction as arbitrary: st) (auto simp: wellFormed_step)

lemma nonempty_step: "sessions st \<noteq> [] \<Longrightarrow> sessions (step a st) \<noteq> []"
  by (cases a)
     (auto simp: createNewChat_def setActiveSessionId_def deleteSession_def setFile_def
       sendMessage_def fire_def timerCallback_def updateSession_def Let_def
       split: list.splits prod.splits)

lemma nonempty_run: "sessions st \<noteq> [] \<Longrightarrow> sessions (run as st) \<noteq> []"
  by (induction as arbitrary: st) (auto simp: nonempty_step)

lemma activeSession_defined: "sessions st \<noteq> [] \<Longrightarrow> \<exists>s \<in> set (sessions st). activeSession st = Some s"
  by (auto simp: activeSession_def split: option.splits list.splits dest: find_Some_iff[THEN iffD1])

lemma one_match:
  "distinct (map f xs) \<Longrightarrow> x \<in> f ` set xs \<Longrightarrow> length (filter (\<lambda>s. f s = x) xs) = 1"
proof (induction xs)
  case Nil
  then show ?case by simp
next
  case (Cons a xs)
  show ?case
  proof (cases "f a = x")
    case True
    from Cons.prems(1) have "f a \<notin> f ` set xs" by simp
    then have "\<forall>s \<in> set xs. f s \<noteq> f a" by (metis imageI)
    then have "filter (\<lambda>s. f s = x) xs = []"
      using True by (simp add: filter_empty_conv)
    with True show ?thesis by simp
  next
    case False
    with Cons show ?thesis by auto
  qed
qed

lemma wellFormed_one_active: "wellFormed st \<Longrightarrow> length (activeSessions st) = 1"
  by (simp add: wellFormed_def activeSessions_def sessionIds_def one_match)

lemma wellFormed_init: "wellFormed (init now)"
  by (simp add: wellFormed_def init_def sessionIds_def)


lemma lower_char_dot: "lower_char c = CHR ''.'' \<longleftrightarrow> c = CHR ''.''"
proof
  assume h: "lower_char c = CHR ''.''"
  show "c = CHR ''.''"
  proof (cases "65 \<le> (of_char c :: nat) \<and> (of_char c :: nat) \<le> 90")
    case True
    then have "lower_char c = char_of ((of_char c :: nat) + 32)"
      by (simp add: lower_char_def Let_def)
    with h have "(of_char (char_of ((of_char c :: nat) + 32)) :: nat) = of_char (CHR ''.'')"
      by simp
    then have "((of_char c :: nat) + 32) mod 256 = 46"
      by simp
    with True show ?thesis by simp
  next
    case False
    with h show ?thesis by (simp add: lower_char_def Let_def)
  qed
next
  assume "c = CHR ''.''"
  then show "lower_char c = CHR ''.''" by (simp add: lower_char_def Let_def)
qed

lemma isExtension_length: "isExtension s \<Longrightarrow> length s = 4 \<or> length s = 5"
proof -
  assume "isExtension s"
  then have "length (toLowerCase s) = 4 \<or> length (toLowerCase s) = 5"
    unfolding isExtension_def by auto
  then show ?thesis by (simp add: toLowerCase_def)
qed

lemma isExtension_hd: "isExtension s \<Longrightarrow> hd s = CHR ''.''"
  unfolding isExtension_def toLowerCase_def
  by (auto simp: map_eq_Cons_conv lower_char_dot)

lemma isExtension_second: "isExtension (c # s) \<Longrightarrow> hd s \<noteq> CHR ''.''"
  unfolding isExtension_def toLowerCase_def
  by (auto simp: map_eq_Cons_conv lower_char_def Let_def)

lemma not_isExtension_longer:
  assumes "isExtension ext"
  shows "\<not> isExtension (b # base @ ext)"
proof
  assume h: "isExtension (b # base @ ext)"
  from isExtension_length [OF assms] isExtension_length [OF h] have "base = []"
    by auto
  with h have "hd ext \<noteq> CHR ''.''"
    using isExtension_second [of b ext] by simp
  with isExtension_hd [OF assms] show False by simp
qed

lemma stripExtension_append:
  "isExtension ext \<Longrightarrow> stripExtension (base @ ext) = base"
proof (induction base)
  case Nil
  then have "ext \<noteq> []" using isExtension_length by fastforce
  with Nil show ?case by (cases ext) simp_all
next
  case (Cons b base)
  then show ?case by (simp add: not_isExtension_longer)
qed

lemma stripExtension_none:
  "(\<forall>k. \<not> isExtension (drop k nm)) \<Longrightarrow> stripExtension nm = nm"
proof (induction nm)
  case Nil
  then show ?case by simp
next
  case (Cons c cs)
  have "\<not> isExtension (c # cs)" using Cons.prems [rule_format, of 0] by simp
  moreover have "\<forall>k. \<not> isExtension (drop k cs)"
    using Cons.prems by (metis drop_Suc_Cons)
  ultimately show ?case using Cons.IH by simp
qed

lemma includes_concat_mem: "x \<in> set xss \<Longrightarrow> includes_s (concat xss) x"
  by (auto simp: includes_s_def dest!: split_list)

lemma includes_concat_slice: "includes_s (concat xss) (concat (take m (drop n xss)))"
proof -
  have "concat xss = concat (take n xss) @ concat (take m (drop n xss))
      @ concat (drop m (drop n xss))"
    by (metis append_take_drop_id concat_append)
  then show ?thesis by (simp add: includes_s_def)
qed


lemma nth_updateSession:
  "j < length (sessions st) \<Longrightarrow>
   sessions (updateSession i g st) ! j
     = (if id_s (sessions st ! j) = i then g (sessions st ! j) else sessions st ! j)"
  by (simp add: updateSession_def)

lemma find_distinct_nth:
  "distinct (map f xs) \<Longrightarrow> j < length xs \<Longrightarrow> find (\<lambda>s. f s = f (xs ! j)) xs = Some (xs ! j)"
proof (induction xs arbitrary: j)
  case Nil
  then show ?case by simp
next
  case (Cons a xs)
  show ?case
  proof (cases j)
    case 0
    then show ?thesis by simp
  next
    case (Suc j')
    with Cons.prems have "xs ! j' \<in> set xs" by simp
    with Cons.prems have "f a \<noteq> f (xs ! j')" by (metis distinct.simps(2) imageI list.simps(9) set_map)
    with Cons Suc show ?thesis by simp
  qed
qed

lemma lookup_append: "lookup h a = Some x \<Longrightarrow> lookup (h @ k) a = Some x"
  by (auto simp: lookup_def nth_append split: if_splits)

lemma lookup_fresh: "lookup (h @ [x]) (length h) = Some x"
  by (simp add: lookup_def)

lemma getStrings_append: "getStrings h a = Some x \<Longrightarrow> getStrings (h @ k) a = Some x"
  by (auto simp: getStrings_def lookup_append split: option.splits hobj.splits)

lemma getRows_append: "getRows h a = Some x \<Longrightarrow> getRows (h @ k) a = Some x"
  by (auto simp: getRows_def lookup_append split: option.splits hobj.splits)

lemma getCells_append: "getCells h a = Some x \<Longrightarrow> getCells (h @ k) a = Some x"
  by (auto simp: getCells_def lookup_append split: option.splits hobj.splits)

lemma derefRows_append: "derefRows h rs = Some x \<Longrightarrow> derefRows (h @ k) rs = Some x"
  by (induction rs arbitrary: x) (auto simp: getCells_append split: option.splits)

lemma readTable_append: "readTable h a = Some x \<Longrightarrow> readTable (h @ k) a = Some x"
  by (auto simp: readTable_def getRows_append derefRows_append split: option.splits)

lemma readFile_append: "readFile h a = Some f \<Longrightarrow> readFile (h @ k) a = Some f"
  by (auto simp: readFile_def lookup_append getStrings_append readTable_append
      split: option.splits hobj.splits)

lemma derefRows_length: "derefRows h rs = Some x \<Longrightarrow> length x = length rs"
  by (induction rs arbitrary: x) (auto split: option.splits)

lemma derefRows_take: "derefRows h rs = Some x \<Longrightarrow> derefRows h (take n rs) = Some (take n x)"
proof (induction rs arbitrary: x n)
  case Nil
  then show ?case by simp
next
  case (Cons a rs)
  then show ?case by (cases n) (auto split: option.splits)
qed

lemma derefRows_drop: "derefRows h rs = Some x \<Longrightarrow> derefRows h (drop n rs) = Some (drop n x)"
proof (induction rs arbitrary: x n)
  case Nil
  then show ?case by simp
next
  case (Cons a rs)
  then show ?case by (cases n) (auto split: option.splits)
qed

lemma readTable_fresh:
  "derefRows h rs = Some x \<Longrightarrow> readTable (h @ [HRows rs]) (length h) = Some x"
  by (simp add: readTable_def getRows_def lookup_fresh derefRows_append)

lemma readFile_fields:
  assumes "readFile h a = Some f"
  obtains sheets_ref data_ref headers_ref rs where
    "lookup h a = Some (HFile (name f) sheets_ref (selectedSheet f) data_ref headers_ref (rowCount f))"
    "getStrings h headers_ref = Some (headers f)"
    "getRows h data_ref = Some rs"
    "derefRows h rs = Some (data f)"
  using assms
  by (auto simp: readFile_def readTable_def split: option.splits hobj.splits)

lemma generateMockResponse_h_refines:
  assumes "readFile h a = Some f"
  shows "\<exists>r k. generateMockResponse_h question (Some a) h = Some (r, h @ k)
     \<and> readResponse (h @ k) r = Some (generateMockResponse question (Some f))
     \<and> readFile (h @ k) a = Some f"
proof -
  from assms obtain sheets_ref data_ref headers_ref rs where
    f: "lookup h a
          = Some (HFile (name f) sheets_ref (selectedSheet f) data_ref headers_ref (rowCount f))"
    and hs: "getStrings h headers_ref = Some (headers f)"
    and rs: "getRows h data_ref = Some rs"
    and d: "derefRows h rs = Some (data f)"
    by (rule readFile_fields)
  have len: "length rs = length (data f)"
    using derefRows_length [OF d] by simp
  let ?q = "toLowerCase question"
  consider
      (summary) "includes_s ?q ''summary'' \<or> includes_s ?q ''overview'' \<or> includes_s ?q ''describe''"
    | (columns) "\<not> (includes_s ?q ''summary'' \<or> includes_s ?q ''overview'' \<or> includes_s ?q ''describe'')"
        "includes_s ?q ''column'' \<or> includes_s ?q ''header'' \<or> includes_s ?q ''field''"
    | (rowcount) "\<not> (includes_s ?q ''summary'' \<or> includes_s ?q ''overview'' \<or> includes_s ?q ''describe'')"
        "\<not> (includes_s ?q ''column'' \<or> includes_s ?q ''header'' \<or> includes_s ?q ''field'')"
        "includes_s ?q ''row'' \<or> includes_s ?q ''count'' \<or> includes_s ?q ''how many''"
    | (preview) "\<not> (includes_s ?q ''summary'' \<or> includes_s ?q ''overview'' \<or> includes_s ?q ''describe'')"
        "\<not> (includes_s ?q ''column'' \<or> includes_s ?q ''header'' \<or> includes_s ?q ''field'')"
        "\<not> (includes_s ?q ''row'' \<or> includes_s ?q ''count'' \<or> includes_s ?q ''how many'')"
        "includes_s ?q ''show'' \<or> includes_s ?q ''preview'' \<or> includes_s ?q ''sample''
           \<or> includes_s ?q ''first''"
    | (last) "\<not> (includes_s ?q ''summary'' \<or> includes_s ?q ''overview'' \<or> includes_s ?q ''describe'')"
        "\<not> (includes_s ?q ''column'' \<or> includes_s ?q ''header'' \<or> includes_s ?q ''field'')"
        "\<not> (includes_s ?q ''row'' \<or> includes_s ?q ''count'' \<or> includes_s ?q ''how many'')"
        "\<not> (includes_s ?q ''show'' \<or> includes_s ?q ''preview'' \<or> includes_s ?q ''sample''
           \<or> includes_s ?q ''first'')"
        "includes_s ?q ''last''"
    | (default) "\<not> (includes_s ?q ''summary'' \<or> includes_s ?q ''overview'' \<or> includes_s ?q ''describe'')"
        "\<not> (includes_s ?q ''column'' \<or> includes_s ?q ''header'' \<or> includes_s ?q ''field'')"
        "\<not> (includes_s ?q ''row'' \<or> includes_s ?q ''count'' \<or> includes_s ?q ''how many'')"
        "\<not> (includes_s ?q ''show'' \<or> includes_s ?q ''preview'' \<or> includes_s ?q ''sample''
           \<or> includes_s ?q ''first'')"
        "\<not> includes_s ?q ''last''"
    by blast
  then show ?thesis
  proof cases
    case summary
    then have "generateMockResponse_h question (Some a) h
        = Some ((summaryContent (name f) (selectedSheet f) (rowCount f) (headers f), None), h @ [])"
      and "generateMockResponse question (Some f) = summaryResponse f"
      by (simp_all add: generateMockResponse_h_def generateMockResponse_def f hs Let_def)
    then show ?thesis
      using assms by (intro exI conjI) (assumption, simp_all add: readResponse_def summaryResponse_def)
  next
    case columns
    then have "generateMockResponse_h question (Some a) h
        = Some ((columnsContent (headers f), None), h @ [HStrings (numberedHeaders (headers f))])"
      and "generateMockResponse question (Some f) = columnsResponse f"
      by (simp_all add: generateMockResponse_h_def generateMockResponse_def f hs Let_def)
    then show ?thesis
      using readFile_append [OF assms]
      by (intro exI conjI) (assumption, simp_all add: readResponse_def columnsResponse_def)
  next
    case rowcount
    then have "generateMockResponse_h question (Some a) h
        = Some ((rowCountContent (rowCount f) (headers f) (selectedSheet f), None), h @ [])"
      and "generateMockResponse question (Some f) = rowCountResponse f"
      by (simp_all add: generateMockResponse_h_def generateMockResponse_def f hs Let_def)
    then show ?thesis
      using assms by (intro exI conjI) (assumption, simp_all add: readResponse_def rowCountResponse_def)
  next
    case preview
    then have "generateMockResponse_h question (Some a) h
        = Some ((previewContent (length rs), Some (headers_ref, length h)), h @ [HRows (take 5 rs)])"
      and "generateMockResponse question (Some f) = previewResponse f"
      by (simp_all add: generateMockResponse_h_def generateMockResponse_def f rs Let_def)
    then show ?thesis
      using readFile_append [OF assms] getStrings_append [OF hs]
        readTable_fresh [OF derefRows_take [OF d, of 5]]
      by (intro exI conjI) (assumption, simp_all add: readResponse_def previewResponse_def len)
  next
    case last
    then have "generateMockResponse_h question (Some a) h
        = Some ((lastContent (length rs), Some (headers_ref, length h)),
                h @ [HRows (drop (length rs - 5) rs)])"
      and "generateMockResponse question (Some f) = lastResponse f"
      by (simp_all add: generateMockResponse_h_def generateMockResponse_def f rs Let_def)
    then show ?thesis
      using readFile_append [OF assms] getStrings_append [OF hs]
        readTable_fresh [OF derefRows_drop [OF d, of "length rs - 5"]]
      by (intro exI conjI) (assumption, simp_all add: readResponse_def lastResponse_def len)
  next
    case default
    then have "generateMockResponse_h question (Some a) h
        = Some ((defaultContent (selectedSheet f) (name f) (rowCount f) (headers f), None),
                h @ [HStrings (take 5 (headers f))])"
      and "generateMockResponse question (Some f) = defaultResponse f"
      by (simp_all add: generateMockResponse_h_def generateMockResponse_def f hs Let_def)
    then show ?thesis
      using readFile_append [OF assms]
      by (intro exI conjI) (assumption, simp_all add: readResponse_def defaultResponse_def)
  qed
qed

lemma readResponse_append: "readResponse h r = Some x \<Longrightarrow> readResponse (h @ k) r = Some x"
  by (auto simp: readResponse_def getStrings_append readTable_append
      split: option.splits prod.splits)

section \<open>The dispatcher follows the classification policy\<close>

lemma generateMockResponse_classify:
  "generateMockResponse question (Some f) = spec_answer (spec_classify question) f"
  by (simp add: generateMockResponse_def spec_classify_def spec_precedence_def
      spec_matches_def Let_def)

lemma generateMockResponse_refines:
  "generateMockResponse question file_opt = spec_respond question file_opt"
  by (cases file_opt) (simp_all add: generateMockResponse_classify spec_respond_def,
      simp add: generateMockResponse_def)

lemma find_first_match:
  "find P xs = Some c \<Longrightarrow> P c \<and> (\<forall>x \<in> set (takeWhile (\<lambda>x. x \<noteq> c) xs). \<not> P x)"
  by (induction xs) (auto split: if_splits)

lemma find_takeWhile_before:
  "(case find P xs of Some c \<Rightarrow> c | None \<Rightarrow> d) = c \<Longrightarrow> d \<notin> set xs \<Longrightarrow>
   \<forall>x \<in> set (takeWhile (\<lambda>x. x \<noteq> c) xs). \<not> P x"
  by (induction xs) (auto split: if_splits option.splits)

lemma classify_first_match:
  "\<forall>c' \<in> set (takeWhile (\<lambda>x. x \<noteq> spec_classify question) spec_precedence).
      \<not> spec_matches (toLowerCase question) c'"
  by (rule find_takeWhile_before [where d = Default])
     (simp_all add: spec_classify_def spec_precedence_def)

lemma classify_matches:
  "spec_classify question \<noteq> Default \<Longrightarrow>
   spec_matches (toLowerCase question) (spec_classify question)"
  by (auto simp: spec_classify_def split: option.splits dest: find_first_match)

text \<open>A keyword in lower case that occurs in the question occurs in the lower-cased question.\<close>

lemma toLowerCase_keeps:
  "toLowerCase k = k \<Longrightarrow> includes_s s k \<Longrightarrow> includes_s (toLowerCase s) k"
  unfolding includes_s_def toLowerCase_def
  by (metis sublist_def map_append)

text \<open>
  Claim C3. The \<open>if\<close> chain of \<open>generateMockResponse\<close> computes what the ordered table of
  the specification computes: without a dataset the upload prompt, otherwise the answer of
  the first category, in the order summary, columns, row count, preview, last, that has a
  keyword in the lower-cased question, and the default answer when none has. No category
  before the one chosen has a keyword in the question, and the one chosen, unless it is
  the default, has one. A question that contains \<open>summary\<close> and \<open>preview\<close> gets the
  summary answer.
\<close>

theorem dispatcher_precedence:
  "generateMockResponse question file_opt = spec_respond question file_opt
   \<and> (\<forall>c' \<in> set (takeWhile (\<lambda>x. x \<noteq> spec_classify question) spec_precedence).
         \<not> spec_matches (toLowerCase question) c')
   \<and> (spec_classify question \<noteq> Default \<longrightarrow>
         spec_matches (toLowerCase question) (spec_classify question))
   \<and> (includes_s question ''summary'' \<and> includes_s question ''preview'' \<longrightarrow>
         spec_classify question = Summary
         \<and> generateMockResponse question (Some f) = summaryResponse f)"
proof -
  have low: "toLowerCase ''summary'' = ''summary''"
    by (simp add: toLowerCase_def lower_char_def)
  have "spec_classify question = Summary" if "includes_s question ''summary''"
    using toLowerCase_keeps [OF low that]
    by (simp add: spec_classify_def spec_precedence_def spec_matches_def)
  then show ?thesis
    using generateMockResponse_refines [of question file_opt]
      classify_first_match [of question] classify_matches [of question]
      generateMockResponse_classify [of question f]
    by auto
qed

theorem dispatcher_precedence_witness:
  "includes_s ''summary and preview'' ''summary'' \<and> includes_s ''summary and preview'' ''preview''
   \<and> spec_classify ''summary and preview'' = Summary"
proof -
  have h: "includes_s ''summary and preview'' ''summary''
      \<and> includes_s ''summary and preview'' ''preview''"
    by (simp add: includes_s_def sublist_Cons_right)
  from h dispatcher_precedence
    [of "''summary and preview''" "None :: nat uploadedFile option"
        "\<lparr>name = ''a.csv'', sheets = [''S''], selectedSheet = ''S'', data = [[1]],
          headers = [''h''], rowCount = 1\<rparr>"]
  show ?thesis by blast
qed

text \<open>
  Claim C5. For a dataset whose \<open>rowCount\<close> is the number of its rows, a question of the
  preview category gets a table with the headers of the dataset and its first
  \<open>min 5 rowCount\<close> rows, and a question of the category \<open>last\<close> gets a table with the
  headers and the last \<open>min 5 rowCount\<close> rows, in the order of the dataset. With three rows
  both tables hold all the rows.
\<close>

theorem preview_and_last_rows:
  assumes "rowCount f = length (data f)"
  shows "(spec_classify question = Preview \<longrightarrow>
            table_r (generateMockResponse question (Some f))
              = Some \<lparr> headers_t = headers f, rows = take (min 5 (rowCount f)) (data f) \<rparr>)
       \<and> (spec_classify question = Last \<longrightarrow>
            table_r (generateMockResponse question (Some f))
              = Some \<lparr> headers_t = headers f,
                        rows = drop (rowCount f - min 5 (rowCount f)) (data f) \<rparr>)
       \<and> (rowCount f = 3 \<and> (spec_classify question = Preview \<or> spec_classify question = Last)
            \<longrightarrow> table_r (generateMockResponse question (Some f))
              = Some \<lparr> headers_t = headers f, rows = data f \<rparr>)"
  using assms
  by (auto simp: generateMockResponse_classify previewResponse_def lastResponse_def Let_def
      min_def)

theorem preview_and_last_rows_witness:
  "spec_classify ''preview'' = Preview \<and> spec_classify ''the LAST ones'' = Last
   \<and> table_r (generateMockResponse ''preview''
        (Some \<lparr>name = ''a.csv'', sheets = [''S''], selectedSheet = ''S'',
               data = [[1::nat], [2], [3], [4], [5], [6], [7]], headers = [''h''], rowCount = 7\<rparr>))
      = Some \<lparr> headers_t = [''h''], rows = [[1], [2], [3], [4], [5]] \<rparr>
   \<and> table_r (generateMockResponse ''the LAST ones''
        (Some \<lparr>name = ''a.csv'', sheets = [''S''], selectedSheet = ''S'',
               data = [[1::nat], [2], [3], [4], [5], [6], [7]], headers = [''h''], rowCount = 7\<rparr>))
      = Some \<lparr> headers_t = [''h''], rows = [[3], [4], [5], [6], [7]] \<rparr>
   \<and> rowCount q3_report = 3
   \<and> table_r (generateMockResponse ''preview'' (Some q3_report))
      = Some \<lparr> headers_t = headers q3_report, rows = data q3_report \<rparr>
   \<and> table_r (generateMockResponse ''the LAST ones'' (Some q3_report))
      = Some \<lparr> headers_t = headers q3_report, rows = data q3_report \<rparr>"
proof -
  have p: "spec_classify ''preview'' = Preview"
    by code_simp
  have l: "spec_classify ''the LAST ones'' = Last"
    by code_simp
  have q: "rowCount q3_report = length (data q3_report)" "rowCount q3_report = 3"
    by (simp_all add: q3_report_def)
  have seven:
    "table_r (generateMockResponse ''preview''
        (Some \<lparr>name = ''a.csv'', sheets = [''S''], selectedSheet = ''S'',
               data = [[1::nat], [2], [3], [4], [5], [6], [7]], headers = [''h''], rowCount = 7\<rparr>))
      = Some \<lparr> headers_t = [''h''], rows = [[1], [2], [3], [4], [5]] \<rparr>
     \<and> table_r (generateMockResponse ''the LAST ones''
        (Some \<lparr>name = ''a.csv'', sheets = [''S''], selectedSheet = ''S'',
               data = [[1::nat], [2], [3], [4], [5], [6], [7]], headers = [''h''], rowCount = 7\<rparr>))
      = Some \<lparr> headers_t = [''h''], rows = [[3], [4], [5], [6], [7]] \<rparr>"
    using p l
      preview_and_last_rows [of "\<lparr>name = ''a.csv'', sheets = [''S''], selectedSheet = ''S'',
               data = [[1::nat], [2], [3], [4], [5], [6], [7]], headers = [''h''], rowCount = 7\<rparr>"
               "''preview''"]
      preview_and_last_rows [of "\<lparr>name = ''a.csv'', sheets = [''S''], selectedSheet = ''S'',
               data = [[1::nat], [2], [3], [4], [5], [6], [7]], headers = [''h''], rowCount = 7\<rparr>"
               "''the LAST ones''"]
    by simp
  have three:
    "table_r (generateMockResponse ''preview'' (Some q3_report))
      = Some \<lparr> headers_t = headers q3_report, rows = data q3_report \<rparr>
     \<and> table_r (generateMockResponse ''the LAST ones'' (Some q3_report))
      = Some \<lparr> headers_t = headers q3_report, rows = data q3_report \<rparr>"
    using p l q(2) preview_and_last_rows [OF q(1), of "''preview''"]
      preview_and_last_rows [OF q(1), of "''the LAST ones''"]
    by blast
  from p l q(2) seven three show ?thesis by blast
qed

section \<open>Deleting a session\<close>

text \<open>
  Claim C8. When \<open>deleteSession i\<close> deletes the active session and the sessions that
  remain are \<open>s0 # rest\<close>, the collection becomes \<open>s0 # rest\<close> and the session at its head,
  \<open>s0\<close>, becomes the active one.
\<close>

theorem deleteSession_active_first_remaining:
  assumes "activeSessionId st = i"
    and "filter (\<lambda>s. id_s s \<noteq> i) (sessions st) = s0 # rest"
  shows "sessions (deleteSession i newId now st) = s0 # rest
       \<and> activeSessionId (deleteSession i newId now st) = id_s s0"
  using assms by (simp add: deleteSession_def)

theorem deleteSession_active_first_remaining_witness:
  "activeSessionId (createNewChat ''b'' 1 (init 0 :: nat engine)) = ''b''
   \<and> sessions (deleteSession ''b'' ''n'' 2 (createNewChat ''b'' 1 (init 0 :: nat engine)))
       = sessions (init 0)
   \<and> activeSessionId (deleteSession ''b'' ''n'' 2 (createNewChat ''b'' 1 (init 0 :: nat engine)))
       = ''default''"
  using deleteSession_active_first_remaining
    [of "createNewChat ''b'' 1 (init 0 :: nat engine)" "''b''"
        "hd (sessions (init 0))" "[]" "''n''" 2]
  by (simp add: createNewChat_def init_def)

text \<open>
  Claim C10, as amended. When \<open>i\<close> is the identifier of no session of a non-empty
  collection, \<open>deleteSession i\<close> leaves the collection and the session shown as active
  (\<^const>\<open>activeSession\<close>) as they are. It leaves the whole state as it is when the active
  identifier is not \<open>i\<close>, which is so whenever the active identifier is that of a
  session. When the active identifier is \<open>i\<close> itself, it becomes the identifier of the
  first session: the test \<open>activeSessionId === id\<close> of the source does not ask whether a
  session was removed.
\<close>

theorem deleteSession_absent_id:
  assumes "i \<notin> set (sessionIds st)" and "sessions st \<noteq> []"
  shows "sessions (deleteSession i newId now st) = sessions st
       \<and> activeSession (deleteSession i newId now st) = activeSession st
       \<and> (activeSessionId st \<noteq> i \<longrightarrow> deleteSession i newId now st = st)
       \<and> (activeSessionId st = i \<longrightarrow>
            activeSessionId (deleteSession i newId now st) = id_s (hd (sessions st)))"
proof -
  from assms(1) have flt: "filter (\<lambda>s. id_s s \<noteq> i) (sessions st) = sessions st"
    by (simp add: sessionIds_def filter_absent)
  from assms(2) obtain s0 rest where ss: "sessions st = s0 # rest"
    by (cases "sessions st") auto
  have same: "st\<lparr>sessions := s0 # rest\<rparr> = st"
    using ss by (cases st) simp
  have del: "deleteSession i newId now st =
      (if activeSessionId st = i then st\<lparr>activeSessionId := id_s s0\<rparr> else st)"
    unfolding deleteSession_def Let_def flt using same by (simp add: ss)
  have nf: "find (\<lambda>s. id_s s = i) (sessions st) = None"
    using assms(1) by (auto simp: sessionIds_def find_None_iff)
  have act: "activeSessionId st = i \<Longrightarrow>
      activeSession (st\<lparr>activeSessionId := id_s s0\<rparr>) = activeSession st"
    using nf by (simp add: activeSession_def ss)
  show ?thesis
    using del act by (simp add: ss)
qed

theorem deleteSession_absent_id_witness:
  "''zzz'' \<notin> set (sessionIds (init 0 :: nat engine)) \<and> sessions (init 0 :: nat engine) \<noteq> []
   \<and> deleteSession ''zzz'' ''n'' 1 (init 0 :: nat engine) = init 0"
  using deleteSession_absent_id [of "''zzz''" "init 0 :: nat engine" "''n''" 1]
  by (simp add: init_def sessionIds_def)

text \<open>
  Claim C10 as stated fails after \<open>setActiveSessionId\<close> was given an identifier of no
  session: deleting that identifier changes the active identifier from \<open>ghost\<close> to
  \<open>default\<close>.
\<close>

theorem deleteSession_absent_id_counterexample:
  "''ghost'' \<notin> set (sessionIds (setActiveSessionId ''ghost'' (init 0 :: nat engine)))
   \<and> sessions (setActiveSessionId ''ghost'' (init 0 :: nat engine)) \<noteq> []
   \<and> activeSessionId (setActiveSessionId ''ghost'' (init 0 :: nat engine)) = ''ghost''
   \<and> activeSessionId
        (deleteSession ''ghost'' ''n'' 1 (setActiveSessionId ''ghost'' (init 0 :: nat engine)))
       = ''default''"
  by (simp add: deleteSession_def setActiveSessionId_def init_def sessionIds_def Let_def)

section \<open>The invariant of the session collection\<close>

text \<open>
  Claim C2, as amended. After every sequence of operations from the initial state the
  collection is not empty and the hook shows one session as active (\<^const>\<open>activeSession\<close>,
  which falls back on the first session). When every new identifier drawn is fresh and
  every session selected exists, the identifiers stay distinct and exactly one session
  carries the active identifier; each single operation preserves this. In particular,
  deleting the only session leaves one session: a fresh \<open>New Chat\<close> with no messages and
  no file, which is the active one.
\<close>

theorem session_collection_invariant:
  "(expectedAll as (init now) \<longrightarrow> wellFormed (run as (init now)))
   \<and> (wellFormed st \<and> expected a st \<longrightarrow> wellFormed (step a st))
   \<and> (wellFormed st \<longrightarrow> sessions st \<noteq> [] \<and> length (activeSessions st) = 1)
   \<and> sessions (run as (init now)) \<noteq> []
   \<and> (\<exists>s' \<in> set (sessions (run as (init now))). activeSession (run as (init now)) = Some s')
   \<and> (sessions st = [s] \<longrightarrow>
        sessions (deleteSession (id_s s) newId now' st)
          = [\<lparr> id_s = newId, name_s = ''New Chat'', fileName = None, timestamp_s = now',
                messages = [], file_s = None \<rparr>]
        \<and> activeSessionId (deleteSession (id_s s) newId now' st) = newId
        \<and> length (activeSessions (deleteSession (id_s s) newId now' st)) = 1)"
proof -
  have ne: "sessions (run as (init now)) \<noteq> []"
    by (rule nonempty_run) (simp add: init_def)
  have del: "sessions st = [s] \<Longrightarrow>
      deleteSession (id_s s) newId now' st
        = st\<lparr> sessions := [\<lparr> id_s = newId, name_s = ''New Chat'', fileName = None,
                 timestamp_s = now', messages = [], file_s = None \<rparr>],
               activeSessionId := newId \<rparr>"
    by (simp add: deleteSession_def Let_def)
  show ?thesis
    using ne activeSession_defined [OF ne] wellFormed_run [OF wellFormed_init, of as now]
      wellFormed_step [of st a] wellFormed_one_active [of st] del
    by (auto simp: wellFormed_def activeSessions_def)
qed

theorem session_collection_invariant_witness:
  "expectedAll [CreateNewChat ''b'' 1, SendMessage ''hi'' ''m'' 2, DeleteSession ''b'' ''n'' 3,
                DeleteSession ''default'' ''n2'' 4, Fire 0 ''m2'' 5] (init 0 :: nat engine)
   \<and> wellFormed (run [CreateNewChat ''b'' 1, SendMessage ''hi'' ''m'' 2, DeleteSession ''b'' ''n'' 3,
                DeleteSession ''default'' ''n2'' 4, Fire 0 ''m2'' 5] (init 0 :: nat engine))
   \<and> wellFormed (init 0 :: nat engine) \<and> expected (CreateNewChat ''b'' 1) (init 0 :: nat engine)
   \<and> wellFormed (step (CreateNewChat ''b'' 1) (init 0 :: nat engine))
   \<and> length (activeSessions (init 0 :: nat engine)) = 1
   \<and> sessions (deleteSession ''default'' ''n'' 6 (init 0 :: nat engine))
        = [\<lparr> id_s = ''n'', name_s = ''New Chat'', fileName = None, timestamp_s = 6,
              messages = [], file_s = None \<rparr>]"
proof -
  have e: "expectedAll [CreateNewChat ''b'' 1, SendMessage ''hi'' ''m'' 2,
      DeleteSession ''b'' ''n'' 3, DeleteSession ''default'' ''n2'' 4, Fire 0 ''m2'' 5]
      (init 0 :: nat engine)"
    by code_simp
  have w: "wellFormed (init 0 :: nat engine)"
    by (simp add: wellFormed_def init_def sessionIds_def)
  have x: "expected (CreateNewChat ''b'' 1) (init 0 :: nat engine)"
    by (simp add: init_def sessionIds_def)
  have s: "sessions (init 0 :: nat engine) = [hd (sessions (init 0 :: nat engine))]"
    "id_s (hd (sessions (init 0 :: nat engine))) = ''default''"
    by (simp_all add: init_def)
  note T = session_collection_invariant
    [where as = "[CreateNewChat ''b'' 1, SendMessage ''hi'' ''m'' 2,
      DeleteSession ''b'' ''n'' 3, DeleteSession ''default'' ''n2'' 4, Fire 0 ''m2'' 5]"
      and now = 0 and st = "init 0 :: nat engine" and a = "CreateNewChat ''b'' 1"
      and s = "hd (sessions (init 0 :: nat engine))" and newId = "''n''" and now' = 6]
  from T e have 1: "wellFormed (run [CreateNewChat ''b'' 1, SendMessage ''hi'' ''m'' 2,
      DeleteSession ''b'' ''n'' 3, DeleteSession ''default'' ''n2'' 4, Fire 0 ''m2'' 5]
      (init 0 :: nat engine))"
    by blast
  from T w x have 2: "wellFormed (step (CreateNewChat ''b'' 1) (init 0 :: nat engine))"
    by blast
  from T w have 3: "length (activeSessions (init 0 :: nat engine)) = 1"
    by blast
  from T s(1) have "sessions (deleteSession (id_s (hd (sessions (init 0 :: nat engine))))
      ''n'' 6 (init 0 :: nat engine))
        = [\<lparr> id_s = ''n'', name_s = ''New Chat'', fileName = None, timestamp_s = 6,
              messages = [], file_s = None \<rparr>]"
    by blast
  then have 4: "sessions (deleteSession ''default'' ''n'' 6 (init 0 :: nat engine))
        = [\<lparr> id_s = ''n'', name_s = ''New Chat'', fileName = None, timestamp_s = 6,
              messages = [], file_s = None \<rparr>]"
    by (simp only: s(2))
  from e 1 w x 2 3 4 show ?thesis by blast
qed

text \<open>
  Claim C2 as stated fails: \<open>setActiveSessionId\<close> does not look at its argument, and after
  it was given an identifier of no session, no session carries the active identifier;
  and when the identifier drawn for a new session is one in use, two sessions carry the
  active identifier.
\<close>

theorem session_collection_invariant_counterexample:
  "step (SetActiveSessionId ''ghost'') (init 0 :: nat engine)
     = setActiveSessionId ''ghost'' (init 0)
   \<and> sessions (setActiveSessionId ''ghost'' (init 0 :: nat engine)) \<noteq> []
   \<and> activeSessions (setActiveSessionId ''ghost'' (init 0 :: nat engine)) = []
   \<and> length (activeSessions (createNewChat ''default'' 1 (init 0 :: nat engine))) = 2"
  by (simp add: setActiveSessionId_def createNewChat_def activeSessions_def init_def)

section \<open>The delayed response\<close>

text \<open>
  Claim C6. When the timer of a \<open>sendMessage\<close> fires and no session carries the
  identifier it was set for, the callback runs (the timer is consumed and \<open>isTyping\<close> is
  reset) and the sessions and the active identifier are as before.
\<close>

theorem fire_deleted_target:
  assumes "k < length (pending st)"
    and "fst (pending st ! k) \<notin> set (sessionIds st)"
  shows "sessions (fire k newId now st) = sessions st
       \<and> activeSessionId (fire k newId now st) = activeSessionId st
       \<and> isTyping (fire k newId now st) = False
       \<and> pending (fire k newId now st) = take k (pending st) @ drop (Suc k) (pending st)"
  using assms
  by (auto simp: fire_def timerCallback_def sessionIds_def map_no_target Let_def
      split: prod.splits)

theorem fire_deleted_target_witness:
  "0 < length (pending (deleteSession ''default'' ''n1'' 3
                 (sendMessage ''x'' ''m1'' 2 (init 0 :: nat engine))))
   \<and> sessions (fire 0 ''m2'' 4 (deleteSession ''default'' ''n1'' 3
                 (sendMessage ''x'' ''m1'' 2 (init 0 :: nat engine))))
       = sessions (deleteSession ''default'' ''n1'' 3
                 (sendMessage ''x'' ''m1'' 2 (init 0 :: nat engine)))"
  using fire_deleted_target
    [of 0 "deleteSession ''default'' ''n1'' 3 (sendMessage ''x'' ''m1'' 2 (init 0 :: nat engine))"
        "''m2''" 4]
  by (simp add: deleteSession_def sendMessage_def updateSession_def init_def sessionIds_def
      Let_def)

section \<open>Sending a message\<close>

text \<open>
  Claim C4, as amended. When the input is empty or white space only, \<open>handleSend\<close> of the
  chat area returns before it calls \<open>sendMessage\<close>: the input box and the store are as
  before, so no user message is appended and no response is scheduled. Otherwise it
  clears the input box and calls \<open>sendMessage\<close> on the trimmed input. \<open>sendMessage\<close> itself
  does not look at its text: whatever the text, it appends the user message to every
  session that carries the active identifier, leaves the other sessions as they are,
  schedules a response and sets \<open>isTyping\<close>.
\<close>

theorem handleSend_blank_input:
  "(trim input = [] \<longrightarrow> handleSend newId now (input, st) = (input, st))
   \<and> (trim input \<noteq> [] \<longrightarrow>
        handleSend newId now (input, st) = ([], sendMessage (trim input) newId now st))
   \<and> pending (sendMessage msg newId now st) = pending st @ [(activeSessionId st, msg)]
   \<and> isTyping (sendMessage msg newId now st)
   \<and> length (sessions (sendMessage msg newId now st)) = length (sessions st)
   \<and> (j < length (sessions st) \<longrightarrow>
        sessions (sendMessage msg newId now st) ! j
          = (if id_s (sessions st ! j) = activeSessionId st
             then (sessions st ! j)
                    \<lparr> messages := messages (sessions st ! j) @ [userMsg msg newId now] \<rparr>
             else sessions st ! j))"
proof -
  have h: "handleSend newId now (input, st)
      = (if trim input = [] then (input, st)
         else ([], sendMessage (trim input) newId now st))"
    by (simp add: handleSend_def Let_def)
  have s: "sessions (sendMessage msg newId now st)
      = map (\<lambda>s. if id_s s = activeSessionId st
                 then s\<lparr> messages := messages s @ [userMsg msg newId now] \<rparr> else s)
          (sessions st)"
    by (simp add: sendMessage_def updateSession_def Let_def)
  have t: "isTyping (sendMessage msg newId now st)"
    by (simp add: sendMessage_def updateSession_def Let_def)
  show ?thesis
    using h t pending_sendMessage [of msg newId now st] by (simp add: s)
qed

theorem handleSend_blank_input_witness:
  "trim ''  '' = []
   \<and> handleSend ''m'' 1 (''  '', init 0 :: nat engine) = (''  '', init 0)
   \<and> trim [CHR 0xC2, CHR 0xA0, CHR 0x20, CHR 0xE3, CHR 0x80, CHR 0x80] = []
   \<and> handleSend ''m'' 1
        ([CHR 0xC2, CHR 0xA0, CHR 0x20, CHR 0xE3, CHR 0x80, CHR 0x80], init 0 :: nat engine)
       = ([CHR 0xC2, CHR 0xA0, CHR 0x20, CHR 0xE3, CHR 0x80, CHR 0x80], init 0)
   \<and> trim '' hi '' = ''hi''
   \<and> handleSend ''m'' 1 ('' hi '', init 0 :: nat engine)
       = ([], sendMessage ''hi'' ''m'' 1 (init 0))
   \<and> sessions (sendMessage ''hi'' ''m'' 1 (init 0 :: nat engine)) ! 0
       = (sessions (init 0) ! 0) \<lparr> messages := [userMsg ''hi'' ''m'' 1] \<rparr>"
proof -
  have a: "trim ''  '' = []"
    by code_simp
  have b: "trim [CHR 0xC2, CHR 0xA0, CHR 0x20, CHR 0xE3, CHR 0x80, CHR 0x80] = []"
    by code_simp
  have c: "trim '' hi '' = ''hi''"
    by code_simp
  have i: "0 < length (sessions (init 0 :: nat engine))"
    "id_s (sessions (init 0 :: nat engine) ! 0) = activeSessionId (init 0 :: nat engine)"
    "messages (sessions (init 0 :: nat engine) ! 0) = []"
    by (simp_all add: init_def)
  show ?thesis
    using a b c i
      handleSend_blank_input [of "''  ''" "''m''" 1 "init 0 :: nat engine" "''hi''" 0]
      handleSend_blank_input
        [of "[CHR 0xC2, CHR 0xA0, CHR 0x20, CHR 0xE3, CHR 0x80, CHR 0x80]" "''m''" 1
            "init 0 :: nat engine" "''hi''" 0]
      handleSend_blank_input [of "'' hi ''" "''m''" 1 "init 0 :: nat engine" "''hi''" 0]
    by simp
qed

text \<open>
  Claim C4 as stated fails: \<open>sendMessage\<close> of the store, called with the empty text or
  with blanks, appends a user message to the active session and schedules a response.
\<close>

theorem sendMessage_blank_counterexample:
  "trim [] = [] \<and> trim ''  '' = []
   \<and> sessions (sendMessage [] ''m'' 1 (init 0 :: nat engine)) \<noteq> sessions (init 0 :: nat engine)
   \<and> messages (hd (sessions (sendMessage ''  '' ''m'' 1 (init 0 :: nat engine))))
       = [userMsg ''  '' ''m'' 1]
   \<and> pending (sendMessage [] ''m'' 1 (init 0 :: nat engine)) = [(''default'', [])]"
proof -
  have "trim [] = []" and "trim ''  '' = []"
    by code_simp+
  then show ?thesis
    by (simp add: sendMessage_def updateSession_def init_def Let_def)
qed

section \<open>Attaching a file\<close>

text \<open>
  Claim C7. \<open>setFile f\<close> keeps the number of sessions; a session that carries the active
  identifier gets \<open>f\<close> as its file, the name of \<open>f\<close> as its file name, that name without
  its extension as its name, and one more message at the end, \<open>sysMsg\<close>; every other
  session is as before. \<open>sysMsg\<close> is a message of the assistant whose content contains
  the file name, the selected sheet, the row count in decimal, and the first four headers
  joined by commas, followed by three dots exactly when there are more than four headers,
  and a closing bracket. A name that ends with \<open>.xlsx\<close>, \<open>.xls\<close> or \<open>.csv\<close> in any letter case
  loses that ending, a name with no such ending is kept, and \<open>Q3-Report.XLSX\<close> becomes
  \<open>Q3-Report\<close>.
\<close>

theorem setFile_binds_and_renames:
  "length (sessions (setFile f newId now st)) = length (sessions st)
   \<and> (j < length (sessions st) \<longrightarrow>
        sessions (setFile f newId now st) ! j
          = (if id_s (sessions st ! j) = activeSessionId st
             then (sessions st ! j)
                    \<lparr> messages := messages (sessions st ! j) @ [sysMsg f newId now],
                      file_s := Some f, fileName := Some (name f),
                      name_s := stripExtension (name f) \<rparr>
             else sessions st ! j))
   \<and> role (sysMsg f newId now) = Ai
   \<and> includes_s (content (sysMsg f newId now)) (name f)
   \<and> includes_s (content (sysMsg f newId now)) (selectedSheet f)
   \<and> includes_s (content (sysMsg f newId now)) (string_of_nat (rowCount f))
   \<and> includes_s (content (sysMsg f newId now))
        (concat [join '', '' (take 4 (headers f)),
                 if length (headers f) > 4 then ''...'' else [], '')''])
   \<and> (isExtension ext \<longrightarrow> stripExtension (base @ ext) = base)
   \<and> (isExtension ext \<longleftrightarrow> toLowerCase ext \<in> {''.xlsx'', ''.xls'', ''.csv''})
   \<and> ((\<forall>k. \<not> isExtension (drop k nm)) \<longrightarrow> stripExtension nm = nm)
   \<and> stripExtension ''Q3-Report.XLSX'' = ''Q3-Report''"
proof -
  have len: "length (sessions (setFile f newId now st)) = length (sessions st)"
    by (simp add: setFile_def updateSession_def)
  have nth: "j < length (sessions st) \<Longrightarrow>
        sessions (setFile f newId now st) ! j
          = (if id_s (sessions st ! j) = activeSessionId st
             then (sessions st ! j)
                    \<lparr> messages := messages (sessions st ! j) @ [sysMsg f newId now],
                      file_s := Some f, fileName := Some (name f),
                      name_s := stripExtension (name f) \<rparr>
             else sessions st ! j)"
    by (simp add: setFile_def nth_updateSession)
  have r: "role (sysMsg f newId now) = Ai"
    by (simp add: sysMsg_def)
  have c1: "includes_s (content (sysMsg f newId now)) (name f)"
    unfolding sysMsg_def chatMessage.select_convs by (rule includes_concat_mem) simp
  have c2: "includes_s (content (sysMsg f newId now)) (selectedSheet f)"
    unfolding sysMsg_def chatMessage.select_convs by (rule includes_concat_mem) simp
  have c3: "includes_s (content (sysMsg f newId now)) (string_of_nat (rowCount f))"
    unfolding sysMsg_def chatMessage.select_convs by (rule includes_concat_mem) simp
  have c4: "includes_s (content (sysMsg f newId now))
        (concat [join '', '' (take 4 (headers f)),
                 if length (headers f) > 4 then ''...'' else [], '')''])"
    unfolding sysMsg_def chatMessage.select_convs
    using includes_concat_slice [of
        "[icon_folder, '' **'', name f, ''** loaded successfully!'', nl, nl,
          bullet, '' Sheet: **'', selectedSheet f, ''**'', nl,
          bullet, '' Rows: **'', string_of_nat (rowCount f), ''**'', nl,
          bullet, '' Columns: **'', string_of_nat (length (headers f)), ''** ('',
          join '', '' (take 4 (headers f)),
          (if length (headers f) > 4 then ''...'' else []),
          '')'', nl, nl,
          ''I'm ready to analyze your data. What would you like to know?'']" 3 20]
    by (simp del: concat.simps)
  have q: "stripExtension ''Q3-Report.XLSX'' = ''Q3-Report''"
    by code_simp
  have e: "isExtension ext \<longleftrightarrow> toLowerCase ext \<in> {''.xlsx'', ''.xls'', ''.csv''}"
    by (simp add: isExtension_def)
  show ?thesis
    using len nth r c1 c2 c3 c4 q e stripExtension_append [of ext base]
      stripExtension_none [of nm]
    by blast
qed


theorem setFile_binds_and_renames_witness:
  "isExtension ''.XLSX''
   \<and> stripExtension (''Q3-Report'' @ ''.XLSX'') = ''Q3-Report''
   \<and> stripExtension ''a'' = ''a''
   \<and> name_s (sessions (setFile q3_report ''m'' 1 (init 0)) ! 0) = ''Q3-Report''
   \<and> file_s (sessions (setFile q3_report ''m'' 1 (init 0)) ! 0) = Some q3_report
   \<and> messages (sessions (setFile q3_report ''m'' 1 (init 0)) ! 0) = [sysMsg q3_report ''m'' 1]"
proof -
  have x: "isExtension ''.XLSX''"
    by code_simp
  have n: "\<forall>k. \<not> isExtension (drop k ''a'')"
  proof (intro allI notI)
    fix k assume "isExtension (drop k ''a'')"
    from isExtension_length [OF this] show False by simp arith
  qed
  have j: "0 < length (sessions (init 0 :: nat engine))"
    "id_s (sessions (init 0 :: nat engine) ! 0) = activeSessionId (init 0 :: nat engine)"
    "messages (sessions (init 0 :: nat engine) ! 0) = []"
    by (simp_all add: init_def)
  note T = setFile_binds_and_renames
    [where f = q3_report and newId = "''m''" and now = 1 and st = "init 0" and j = 0
       and ext = "''.XLSX''" and base = "''Q3-Report''" and nm = "''a''"]
  from T x have 1: "stripExtension (''Q3-Report'' @ ''.XLSX'') = ''Q3-Report''"
    by blast
  from T n have 2: "stripExtension ''a'' = ''a''"
    by blast
  note T [THEN conjunct2, THEN conjunct1, THEN mp, OF j(1)]
  moreover from T have "stripExtension ''Q3-Report.XLSX'' = ''Q3-Report''"
    by blast
  ultimately have 3:
    "name_s (sessions (setFile q3_report ''m'' 1 (init 0)) ! 0) = ''Q3-Report''
     \<and> file_s (sessions (setFile q3_report ''m'' 1 (init 0)) ! 0) = Some q3_report
     \<and> messages (sessions (setFile q3_report ''m'' 1 (init 0)) ! 0) = [sysMsg q3_report ''m'' 1]"
    using j(2,3) by (simp add: q3_report_def)
  from x 1 2 3 show ?thesis by blast
qed

section \<open>The response reaches the session of the call\<close>

text \<open>
  Claim C1. \<open>sendMessage\<close> sets a timer that holds the active identifier of the moment of
  the call. When that timer fires, in whatever state \<open>st2\<close> with distinct identifiers the
  store then is, the session that carries the identifier held gets one more message, the
  response computed from the file that this session has in \<open>st2\<close>; every other session,
  the active one included when it is another, and the active identifier are as in \<open>st2\<close>.
\<close>

theorem response_goes_to_call_time_session:
  "pending (sendMessage msg newId now st) = pending st @ [(activeSessionId st, msg)]
   \<and> (k < length (pending st2) \<and> pending st2 ! k = (target, msg)
        \<and> distinct (sessionIds st2) \<and> j < length (sessions st2) \<longrightarrow>
        length (sessions (fire k newId2 now2 st2)) = length (sessions st2)
        \<and> activeSessionId (fire k newId2 now2 st2) = activeSessionId st2
        \<and> sessions (fire k newId2 now2 st2) ! j
            = (if id_s (sessions st2 ! j) = target
               then (sessions st2 ! j)
                      \<lparr> messages := messages (sessions st2 ! j)
                          @ [aiMsg (generateMockResponse msg (file_s (sessions st2 ! j)))
                               newId2 now2] \<rparr>
               else sessions st2 ! j))"
proof -
  have "sessions (fire k newId2 now2 st2) ! j
            = (if id_s (sessions st2 ! j) = target
               then (sessions st2 ! j)
                      \<lparr> messages := messages (sessions st2 ! j)
                          @ [aiMsg (generateMockResponse msg (file_s (sessions st2 ! j)))
                               newId2 now2] \<rparr>
               else sessions st2 ! j)"
    if k: "k < length (pending st2)" and p: "pending st2 ! k = (target, msg)"
      and d: "distinct (sessionIds st2)" and j: "j < length (sessions st2)"
  proof (cases "id_s (sessions st2 ! j) = target")
    case True
    from d j have "find (\<lambda>s. id_s s = id_s (sessions st2 ! j)) (sessions st2)
        = Some (sessions st2 ! j)"
      unfolding sessionIds_def by (rule find_distinct_nth)
    with True have "find (\<lambda>s. id_s s = target) (sessions st2) = Some (sessions st2 ! j)"
      by simp
    with True k p j show ?thesis
      by (simp add: fire_def timerCallback_def Let_def)
  next
    case False
    with k p j show ?thesis
      by (simp add: fire_def timerCallback_def Let_def)
  qed
  moreover have "length (sessions (fire k newId2 now2 st2)) = length (sessions st2)"
    by (auto simp: fire_def timerCallback_def Let_def split: prod.splits)
  moreover have "activeSessionId (fire k newId2 now2 st2) = activeSessionId st2"
    by (auto simp: fire_def timerCallback_def Let_def split: prod.splits)
  ultimately show ?thesis
    using pending_sendMessage [of msg newId now st] by blast
qed


theorem response_goes_to_call_time_session_witness:
  "pending interleaved = [(''A'', ''summary'')]
   \<and> activeSessionId interleaved = ''B''
   \<and> id_s (sessions interleaved ! 0) = ''B'' \<and> id_s (sessions interleaved ! 1) = ''A''
   \<and> sessions (fire 0 ''m3'' 5 interleaved) ! 0 = sessions interleaved ! 0
   \<and> messages (sessions (fire 0 ''m3'' 5 interleaved) ! 1)
        = messages (sessions interleaved ! 1) @ [aiMsg (summaryResponse q3_report) ''m3'' 5]"
proof -
  have st: "interleaved =
      \<lparr> sessions =
          [\<lparr> id_s = ''B'', name_s = ''New Chat'', fileName = None, timestamp_s = 4,
              messages = [], file_s = None \<rparr>,
           \<lparr> id_s = ''A'', name_s = ''Q3-Report'', fileName = Some ''Q3-Report.XLSX'',
              timestamp_s = 1,
              messages = [userMsg ''summary'' ''m1'' 2, sysMsg q3_report ''m2'' 3],
              file_s = Some q3_report \<rparr>,
           \<lparr> id_s = ''default'', name_s = ''Welcome Chat'', fileName = None, timestamp_s = 0,
              messages = [], file_s = None \<rparr>],
        activeSessionId = ''B'', isTyping = True, pending = [(''A'', ''summary'')] \<rparr>"
  proof -
    have "stripExtension (name q3_report) = ''Q3-Report''"
      unfolding q3_report_def by code_simp
    then show ?thesis
      by (simp add: interleaved_def createNewChat_def setFile_def sendMessage_def
          updateSession_def init_def Let_def) (simp add: q3_report_def)
  qed
  have g: "generateMockResponse ''summary'' (Some q3_report) = summaryResponse q3_report"
  proof -
    have "spec_classify ''summary'' = Summary" by code_simp
    then show ?thesis by (simp add: generateMockResponse_classify)
  qed
  have h: "0 < length (pending interleaved) \<and> pending interleaved ! 0 = (''A'', ''summary'')
      \<and> distinct (sessionIds interleaved)"
    by (simp add: st sessionIds_def)
  note T0 = response_goes_to_call_time_session
    [where k = 0 and ?st2.0 = interleaved and target = "''A''" and msg = "''summary''"
       and j = 0 and ?newId2.0 = "''m3''" and ?now2.0 = 5, THEN conjunct2, THEN mp]
  note T1 = response_goes_to_call_time_session
    [where k = 0 and ?st2.0 = interleaved and target = "''A''" and msg = "''summary''"
       and j = 1 and ?newId2.0 = "''m3''" and ?now2.0 = 5, THEN conjunct2, THEN mp]
  have 0: "sessions (fire 0 ''m3'' 5 interleaved) ! 0 = sessions interleaved ! 0"
    using T0 h by (simp add: st)
  have 1: "messages (sessions (fire 0 ''m3'' 5 interleaved) ! 1)
        = messages (sessions interleaved ! 1) @ [aiMsg (summaryResponse q3_report) ''m3'' 5]"
    using T1 h g by (simp add: st)
  from 0 1 show ?thesis by (simp add: st)
qed

section \<open>The dispatcher as a function of its arguments\<close>

text \<open>
  Claim C9. Take a heap \<open>h\<close> on which the address \<open>a\<close> leads to the dataset \<open>f\<close>, and a
  heap \<open>h'\<close> on which \<open>a'\<close> does. The call of the dispatcher on \<open>h\<close> returns, and the heap
  after it is \<open>h\<close> with new objects behind it: no object that was there is changed, and
  \<open>a\<close> leads to \<open>f\<close> as before. What the call returns, read on the heap after it, is the
  response that \<open>generateMockResponse\<close> gives for the question and \<open>f\<close>, content and
  table; so the call on \<open>h'\<close> returns the same content and the same table, and so does a
  second call on the heap that the first one has left, which leaves what the first one
  returned as it is. Without a dataset the call returns the upload prompt and the heap as
  it is.
\<close>

theorem dispatcher_pure:
  assumes "readFile h a = Some f" and "readFile h' a' = Some f"
  shows "\<exists>r k r' k' r2 k2 r0.
      generateMockResponse_h question (Some a) h = Some (r, h @ k)
    \<and> generateMockResponse_h question (Some a') h' = Some (r', h' @ k')
    \<and> generateMockResponse_h question (Some a) (h @ k) = Some (r2, h @ k @ k2)
    \<and> readResponse (h @ k) r = Some (generateMockResponse question (Some f))
    \<and> readResponse (h' @ k') r' = readResponse (h @ k) r
    \<and> readResponse (h @ k @ k2) r2 = readResponse (h @ k) r
    \<and> readResponse (h @ k @ k2) r = readResponse (h @ k) r
    \<and> readFile (h @ k) a = Some f \<and> readFile (h' @ k') a' = Some f
    \<and> readFile (h @ k @ k2) a = Some f
    \<and> generateMockResponse_h question None h = Some (r0, h)
    \<and> readResponse h r0 = Some (generateMockResponse question None)"
proof -
  from generateMockResponse_h_refines [OF assms(1), of question] obtain r k where
    1: "generateMockResponse_h question (Some a) h = Some (r, h @ k)"
      "readResponse (h @ k) r = Some (generateMockResponse question (Some f))"
      "readFile (h @ k) a = Some f"
    by blast
  from generateMockResponse_h_refines [OF assms(2), of question] obtain r' k' where
    2: "generateMockResponse_h question (Some a') h' = Some (r', h' @ k')"
      "readResponse (h' @ k') r' = Some (generateMockResponse question (Some f))"
      "readFile (h' @ k') a' = Some f"
    by blast
  from generateMockResponse_h_refines [OF 1(3), of question] obtain r2 k2 where
    3: "generateMockResponse_h question (Some a) (h @ k) = Some (r2, (h @ k) @ k2)"
      "readResponse ((h @ k) @ k2) r2 = Some (generateMockResponse question (Some f))"
      "readFile ((h @ k) @ k2) a = Some f"
    by blast
  have 4: "readResponse ((h @ k) @ k2) r = Some (generateMockResponse question (Some f))"
    using 1(2) by (rule readResponse_append)
  have 0: "generateMockResponse_h question None h = Some ((uploadPromptContent, None), h)"
    "readResponse h (uploadPromptContent, None) = Some (generateMockResponse question None)"
    by (simp_all add: generateMockResponse_h_def generateMockResponse_def readResponse_def
        uploadPrompt_def)
  from 1 2 3 4 0 show ?thesis
    by (intro exI [of _ r] exI [of _ k] exI [of _ r'] exI [of _ k'] exI [of _ r2]
        exI [of _ k2] exI [of _ "(uploadPromptContent, None)"]) simp
qed

theorem dispatcher_pure_witness:
  "readFile q3_heap 6 = Some q3_report \<and> readFile q3_heap_other 1 = Some q3_report
   \<and> generateMockResponse_h ''the last ones'' (Some 6) q3_heap
        = Some ((lastContent 3, Some (5, 7)), q3_heap @ [HRows [1, 2, 3]])
   \<and> generateMockResponse_h ''the last ones'' (Some 1) q3_heap_other
        = Some ((lastContent 3, Some (0, 7)), q3_heap_other @ [HRows [3, 4, 5]])
   \<and> (\<exists>r k r' k'.
        generateMockResponse_h ''the last ones'' (Some 6) q3_heap = Some (r, q3_heap @ k)
      \<and> generateMockResponse_h ''the last ones'' (Some 1) q3_heap_other
          = Some (r', q3_heap_other @ k')
      \<and> readResponse (q3_heap @ k) r = Some (generateMockResponse ''the last ones'' (Some q3_report))
      \<and> readResponse (q3_heap_other @ k') r' = readResponse (q3_heap @ k) r)"
proof -
  have a: "readFile q3_heap 6 = Some q3_report"
    by code_simp
  have b: "readFile q3_heap_other 1 = Some q3_report"
    by code_simp
  have "generateMockResponse_h ''the last ones'' (Some 6) q3_heap
        = Some ((lastContent 3, Some (5, 7)), q3_heap @ [HRows [1, 2, 3]])"
    by code_simp
  moreover have "generateMockResponse_h ''the last ones'' (Some 1) q3_heap_other
        = Some ((lastContent 3, Some (0, 7)), q3_heap_other @ [HRows [3, 4, 5]])"
    by code_simp
  moreover from dispatcher_pure [OF a b, of "''the last ones''"]
  have "\<exists>r k r' k'.
        generateMockResponse_h ''the last ones'' (Some 6) q3_heap = Some (r, q3_heap @ k)
      \<and> generateMockResponse_h ''the last ones'' (Some 1) q3_heap_other
          = Some (r', q3_heap_other @ k')
      \<and> readResponse (q3_heap @ k) r = Some (generateMockResponse ''the last ones'' (Some q3_report))
      \<and> readResponse (q3_heap_other @ k') r' = readResponse (q3_heap @ k) r"
    by blast
  ultimately show ?thesis
    using a b by blast
qed

end
